theory Spec2Isabelle
  imports Main "HOL-Library.Word"
begin

section \<open>Failover protocol of the Trader and Seller processes\<close>

text \<open>
  The repository holds two Go programs: \<^verbatim>\<open>trader.go\<close> (the coordinator) and the seller
  program (the dependent). Both talk through \<^verbatim>\<open>net/rpc\<close>. The embedding below keeps
  every method as a function from the receiver's state to its new state, together with
  the list of events the method performs (dials, calls, log lines, sleeps, lock
  operations and accesses to the mutable shared fields). What the network answers is
  an argument of the model. The two \<^verbatim>\<open>StartRPCServer\<close> functions only accept
  connections and hand each call to the method it names; they appear here through the
  methods they dispatch to.
\<close>

subsection \<open>Go values\<close>

text \<open>Go's \<^verbatim>\<open>int\<close> on a 64-bit target: two's complement, \<open>+\<close> wraps around.\<close>

type_synonym go_int = "64 word"

text \<open>A Go \<^verbatim>\<open>error\<close> is represented by its message; \<^verbatim>\<open>nil\<close> is \<open>None\<close>.\<close>

type_synonym error = string

text \<open>The verb \<^verbatim>\<open>%d\<close> of package \<^verbatim>\<open>fmt\<close> on an \<^verbatim>\<open>int\<close>: signed decimal.\<close>

fun dec :: "nat \<Rightarrow> string" where
  "dec n = (if n < 10 then [''0123456789'' ! n]
            else dec (n div 10) @ [''0123456789'' ! (n mod 10)])"

declare dec.simps [simp del]

definition fmt_d :: "go_int \<Rightarrow> string" where
  "fmt_d w = (if sint w < 0 then CHR ''-'' # dec (nat (- sint w)) else dec (nat (sint w)))"

subsection \<open>Messages\<close>

record Request =
  SellerID :: go_int
  Post :: go_int
  Item :: string
  Quantity :: go_int
  RequestID :: go_int

record Response =
  Status :: string
  Message :: string
  RequestID :: go_int
  Processed :: bool

subsection \<open>Events\<close>

text \<open>
  The three mutexes of the two structs, and the four fields that are written after
  construction. A method's event list records where it locks and where it touches one
  of these fields.
\<close>

datatype mutex = HeartbeatMu | RequestMu | RequestLock

datatype field = FIsLeader | FHeartbeat | FTraderAddr | FRequestID

datatype payload = PInt go_int | PStr string | PReq Request | PRes Response

datatype event =
    Lock mutex
  | Unlock mutex
  | Read field
  | Write field
  | Dial string
  | Call string string payload
  | Close string
  | Log string
  | Sleep nat

text \<open>
  What one \<^verbatim>\<open>rpc.Dial\<close> followed by one \<^verbatim>\<open>client.Call\<close> can give: the dial fails,
  the call fails, or the call fills in the reply.
\<close>

datatype 'r rpc_outcome = DialErr error | CallErr error | Reply 'r

fun dialled :: "event list \<Rightarrow> string list" where
  "dialled [] = []"
| "dialled (Dial a # es) = a # dialled es"
| "dialled (e # es) = dialled es"

fun called :: "event list \<Rightarrow> (string \<times> string \<times> payload) list" where
  "called [] = []"
| "called (Call a m p # es) = (a, m, p) # called es"
| "called (e # es) = called es"


fun logged :: "event list \<Rightarrow> string list" where
  "logged [] = []"
| "logged (Log l # es) = l # logged es"
| "logged (e # es) = logged es"

text \<open>The dial went through: \<^verbatim>\<open>rpc.Dial\<close> returned a client.\<close>

definition connected :: "'r rpc_outcome \<Rightarrow> bool" where
  "connected oc = (case oc of DialErr err \<Rightarrow> False | CallErr err \<Rightarrow> True | Reply r \<Rightarrow> True)"

subsection \<open>The Trader\<close>

text \<open>
  The fields \<^verbatim>\<open>HeartbeatMu\<close> and \<^verbatim>\<open>RequestMu\<close> of the struct are the mutexes named
  above; their use shows in the events.
\<close>

record Trader =
  ID :: go_int
  Address :: string
  Peer :: string
  Post :: go_int
  IsLeader :: bool
  Heartbeat :: bool
  Requests :: "Request list"

definition ForwardRequest :: "Trader \<Rightarrow> Request \<Rightarrow> string rpc_outcome \<Rightarrow> Trader \<times> event list" where
  "ForwardRequest t req net =
     (case net of
        DialErr err \<Rightarrow>
          (t, [Dial (Peer t),
               Log (''Trader '' @ fmt_d (Trader.ID t) @ '': Failed to connect to peer Trader at ''
                    @ Peer t @ '' to forward request.'')])
      | CallErr err \<Rightarrow>
          (t, [Dial (Peer t), Call (Peer t) ''Trader.ReceiveRequest'' (PReq req),
               Log (''Trader '' @ fmt_d (Trader.ID t) @ '': Failed to forward request: '' @ err),
               Close (Peer t)])
      | Reply reply \<Rightarrow>
          (t, [Dial (Peer t), Call (Peer t) ''Trader.ReceiveRequest'' (PReq req),
               Log (''Trader '' @ fmt_d (Trader.ID t)
                    @ '': Request forwarded successfully to Trader '' @ Peer t),
               Close (Peer t)]))"

definition ReceiveHeartbeat ::
  "Trader \<Rightarrow> go_int \<Rightarrow> string \<Rightarrow> Trader \<times> string \<times> error option \<times> event list" where
  "ReceiveHeartbeat t req reply =
     (t\<lparr>Heartbeat := True\<rparr>, ''Alive'', None,
      [Lock HeartbeatMu, Write FHeartbeat, Unlock HeartbeatMu,
       Log (''Trader '' @ fmt_d (Trader.ID t) @ '': Received heartbeat from Trader '' @ fmt_d req)])"

text \<open>
  \<^verbatim>\<open>NotifySellers\<close>: the loop over the hard-coded roster. \<open>net k\<close> is what the network
  gives for the \<open>k\<close>-th seller of the roster. Every \<^verbatim>\<open>defer client.Close()\<close> is pushed
  on \<open>deferred\<close> and runs when the function returns, last in first out.
\<close>

definition sellerAddresses :: "string list" where
  "sellerAddresses = [''localhost:8003'', ''localhost:8004'']"

fun notify_loop ::
  "Trader \<Rightarrow> string \<Rightarrow> (nat \<Rightarrow> string rpc_outcome) \<Rightarrow> nat \<Rightarrow> string list \<Rightarrow> string list
     \<Rightarrow> event list" where
  "notify_loop t newLeaderAddr net k [] deferred = map Close deferred"
| "notify_loop t newLeaderAddr net k (sellerAddr # rest) deferred =
     (case net k of
        DialErr err \<Rightarrow>
          [Dial sellerAddr,
           Log (''Trader '' @ fmt_d (Trader.ID t) @ '': Failed to notify Seller at ''
                @ sellerAddr @ '': '' @ err)]
          @ notify_loop t newLeaderAddr net (Suc k) rest deferred
      | CallErr err \<Rightarrow>
          [Dial sellerAddr, Call sellerAddr ''Seller.UpdateLeader'' (PStr newLeaderAddr),
           Log (''Trader '' @ fmt_d (Trader.ID t) @ '': Failed to notify Seller at ''
                @ sellerAddr @ '': '' @ err)]
          @ notify_loop t newLeaderAddr net (Suc k) rest (sellerAddr # deferred)
      | Reply reply \<Rightarrow>
          [Dial sellerAddr, Call sellerAddr ''Seller.UpdateLeader'' (PStr newLeaderAddr),
           Log (''Trader '' @ fmt_d (Trader.ID t) @ '': Notified Seller at '' @ sellerAddr
                @ '' about new leader '' @ newLeaderAddr)]
          @ notify_loop t newLeaderAddr net (Suc k) rest (sellerAddr # deferred))"

definition NotifySellers ::
  "Trader \<Rightarrow> string \<Rightarrow> (nat \<Rightarrow> string rpc_outcome) \<Rightarrow> Trader \<times> event list" where
  "NotifySellers t newLeaderAddr net = (t, notify_loop t newLeaderAddr net 0 sellerAddresses [])"

definition TakeOverLeadership ::
  "Trader \<Rightarrow> (nat \<Rightarrow> string rpc_outcome) \<Rightarrow> Trader \<times> event list" where
  "TakeOverLeadership t net =
     (let t1 = t\<lparr>IsLeader := True\<rparr>;
          (t2, ev) = NotifySellers t1 (Address t1) net
      in (t2, [Write FIsLeader,
               Log (''Trader '' @ fmt_d (Trader.ID t1) @ '': Taking over all posts as the sole leader.'')]
              @ ev))"

text \<open>
  \<^verbatim>\<open>SendHeartbeat\<close>: \<open>hb\<close> is what the network gives for the probe of the peer, \<open>net\<close>
  what it gives for the notifications of a takeover.
\<close>

definition SendHeartbeat ::
  "Trader \<Rightarrow> string rpc_outcome \<Rightarrow> (nat \<Rightarrow> string rpc_outcome) \<Rightarrow> Trader \<times> event list" where
  "SendHeartbeat t hb net =
     (case hb of
        DialErr err \<Rightarrow>
          (let (t1, ev) = TakeOverLeadership t net
           in (t1, [Dial (Peer t),
                    Log (''Trader '' @ fmt_d (Trader.ID t) @ '': Failed to connect to peer Trader at ''
                         @ Peer t @ ''. Assuming failure.'')]
                   @ ev))
      | CallErr err \<Rightarrow>
          (let (t1, ev) = TakeOverLeadership t net
           in (t1, [Dial (Peer t), Call (Peer t) ''Trader.ReceiveHeartbeat'' (PInt (Trader.ID t)),
                    Log (''Trader '' @ fmt_d (Trader.ID t) @ '': Failed to send heartbeat: '' @ err)]
                   @ ev @ [Close (Peer t)]))
      | Reply reply \<Rightarrow>
          (t, [Dial (Peer t), Call (Peer t) ''Trader.ReceiveHeartbeat'' (PInt (Trader.ID t)),
               Log (''Trader '' @ fmt_d (Trader.ID t) @ '': Heartbeat acknowledged by peer '' @ Peer t),
               Close (Peer t)]))"

text \<open>\<^verbatim>\<open>StartHeartbeat\<close>: one \<^verbatim>\<open>SendHeartbeat\<close> for each tick of the ticker.\<close>

fun StartHeartbeat ::
  "Trader \<Rightarrow> (string rpc_outcome \<times> (nat \<Rightarrow> string rpc_outcome)) list \<Rightarrow> Trader \<times> event list" where
  "StartHeartbeat t [] = (t, [])"
| "StartHeartbeat t ((hb, net) # ticks) =
     (let (t1, ev1) = SendHeartbeat t hb net;
          (t2, ev2) = StartHeartbeat t1 ticks
      in (t2, ev1 @ ev2))"

definition SendResponse ::
  "Trader \<Rightarrow> string \<Rightarrow> Response \<Rightarrow> string rpc_outcome \<Rightarrow> Trader \<times> event list" where
  "SendResponse t sellerAddr res net =
     (case net of
        DialErr err \<Rightarrow>
          (t, [Dial sellerAddr,
               Log (''Trader '' @ fmt_d (Trader.ID t) @ '': Failed to connect to Seller at ''
                    @ sellerAddr @ '': '' @ err)])
      | CallErr err \<Rightarrow>
          (t, [Dial sellerAddr, Call sellerAddr ''Seller.ReceiveResponse'' (PRes res),
               Log (''Trader '' @ fmt_d (Trader.ID t) @ '': Failed to send response to Seller at ''
                    @ sellerAddr @ '': '' @ err),
               Close sellerAddr])
      | Reply reply \<Rightarrow>
          (t, [Dial sellerAddr, Call sellerAddr ''Seller.ReceiveResponse'' (PRes res),
               Log (''Trader '' @ fmt_d (Trader.ID t) @ '': Response sent to Seller at '' @ sellerAddr),
               Close sellerAddr]))"

text \<open>
  \<^verbatim>\<open>ReceiveRequest\<close> writes the four fields of the response it is given and returns
  \<^verbatim>\<open>nil\<close>.
\<close>

definition ReceiveRequest ::
  "Trader \<Rightarrow> Request \<Rightarrow> Response \<Rightarrow> Trader \<times> Response \<times> error option \<times> event list" where
  "ReceiveRequest t req res =
     (t,
      res\<lparr>Response.RequestID := Request.RequestID req,
          Status := ''Success'',
          Message := ''Processed request '' @ fmt_d (Request.RequestID req) @ '': ''
                     @ fmt_d (Quantity req) @ '' '' @ Item req @ '' from Seller ''
                     @ fmt_d (SellerID req),
          Processed := True\<rparr>,
      None,
      [Log (''Trader '' @ fmt_d (Trader.ID t) @ '': Received request ''
            @ fmt_d (Request.RequestID req) @ '' from Seller '' @ fmt_d (SellerID req)
            @ '' for '' @ fmt_d (Quantity req) @ '' '' @ Item req @ '' in Post ''
            @ fmt_d (Request.Post req)),
       Sleep 2])"

text \<open>
  \<^verbatim>\<open>main\<close> of the trader: the four flags, the usage check that ends the process, and
  the struct literal. The fields the literal leaves out have Go's zero values.
\<close>

definition trader_main :: "go_int \<Rightarrow> string \<Rightarrow> string \<Rightarrow> go_int \<Rightarrow> error + Trader" where
  "trader_main tid address peer post =
     (if tid = 0 \<or> address = [] \<or> peer = [] \<or> post = 0
      then Inl ''Usage: trader -id=<id> -address=<address> -peer=<peer> -post=<post>''
      else Inr \<lparr>Trader.ID = tid, Trader.Address = address, Peer = peer, Trader.Post = post,
                IsLeader = (tid = 1), Heartbeat = False, Requests = []\<rparr>)"

subsection \<open>The Seller\<close>

text \<open>The field \<^verbatim>\<open>RequestLock\<close> of the struct is the mutex of that name.\<close>

record Seller =
  ID :: go_int
  Address :: string
  TraderAddr :: string
  Post :: go_int
  RequestID :: go_int

definition UpdateLeader ::
  "Seller \<Rightarrow> string \<Rightarrow> string \<Rightarrow> Seller \<times> string \<times> error option \<times> event list" where
  "UpdateLeader s newLeaderAddr reply =
     (s\<lparr>TraderAddr := newLeaderAddr\<rparr>, ''Leader updated successfully'', None,
      [Log (''Seller '' @ fmt_d (Seller.ID s) @ '': Updating Trader to new leader at ''
            @ newLeaderAddr),
       Write FTraderAddr])"

text \<open>
  The seller's RPC server runs \<^verbatim>\<open>UpdateLeader\<close> in goroutines of its own, while
  \<^verbatim>\<open>SendRequest\<close> runs in the main goroutine. \<open>serve_updates\<close> applies the leader
  updates that are served in some stretch of time, in the order they are served.
\<close>

fun serve_updates :: "Seller \<Rightarrow> string list \<Rightarrow> Seller \<times> event list" where
  "serve_updates s [] = (s, [])"
| "serve_updates s (a # as) =
     (case UpdateLeader s a [] of
        (s1, reply, err, ev1) \<Rightarrow>
          (case serve_updates s1 as of (s2, ev2) \<Rightarrow> (s2, ev1 @ ev2)))"

text \<open>
  One pass through the body of the \<^verbatim>\<open>for\<close> loop of \<^verbatim>\<open>SendRequest\<close> meets: the
  leader updates served before the pass reads \<^verbatim>\<open>s.TraderAddr\<close> for the dial (during
  the sleep before it), what the network gives for the dial and the call, and the leader
  updates served while the dial and the call are under way.
\<close>

record attempt =
  arrivals :: "string list"
  outcome :: "Response rpc_outcome"
  late_arrivals :: "string list"

text \<open>Line 72: the condition under which the loop is left.\<close>

definition acknowledged :: "go_int \<Rightarrow> Response rpc_outcome \<Rightarrow> bool" where
  "acknowledged reqID oc =
     (case oc of
        DialErr err \<Rightarrow> False
      | CallErr err \<Rightarrow> False
      | Reply res \<Rightarrow> Processed res \<and> Response.RequestID res = reqID)"

text \<open>
  The body of the loop: whether it breaks, the seller after it, the stack of deferred
  \<^verbatim>\<open>client.Close()\<close> calls, and its events.
\<close>

definition attempt_once ::
  "Seller \<Rightarrow> Request \<Rightarrow> go_int \<Rightarrow> attempt \<Rightarrow> string list
     \<Rightarrow> bool \<times> Seller \<times> string list \<times> event list" where
  "attempt_once s req reqID a deferred =
     (case serve_updates s (arrivals a) of
        (s1, ev1) \<Rightarrow>
          (case serve_updates s1 (late_arrivals a) of
             (s2, ev2) \<Rightarrow>
               (case outcome a of
                  DialErr err \<Rightarrow>
                    (False, s2, deferred,
                     ev1 @ [Read FTraderAddr, Dial (TraderAddr s1)] @ ev2
                     @ [Read FTraderAddr,
                        Log (''Seller '' @ fmt_d (Seller.ID s2) @ '': Failed to connect to Trader at ''
                             @ TraderAddr s2 @ ''. Retrying...''),
                        Sleep 5])
                | CallErr err \<Rightarrow>
                    (False, s2, TraderAddr s1 # deferred,
                     ev1 @ [Read FTraderAddr, Dial (TraderAddr s1),
                            Call (TraderAddr s1) ''Trader.ReceiveRequest'' (PReq req)] @ ev2
                     @ [Log (''Seller '' @ fmt_d (Seller.ID s2) @ '': Error sending request: ''
                             @ err @ ''. Retrying...''),
                        Sleep 5])
                | Reply res \<Rightarrow>
                    (if Processed res \<and> Response.RequestID res = reqID
                     then (True, s2, TraderAddr s1 # deferred,
                           ev1 @ [Read FTraderAddr, Dial (TraderAddr s1),
                                  Call (TraderAddr s1) ''Trader.ReceiveRequest'' (PReq req)] @ ev2
                           @ [Log (''Seller '' @ fmt_d (Seller.ID s2) @ '': Request '' @ fmt_d reqID
                                   @ '' processed successfully by Trader'')])
                     else (False, s2, TraderAddr s1 # deferred,
                           ev1 @ [Read FTraderAddr, Dial (TraderAddr s1),
                                  Call (TraderAddr s1) ''Trader.ReceiveRequest'' (PReq req)] @ ev2
                           @ [Log (''Seller '' @ fmt_d (Seller.ID s2)
                                   @ '': Trader response indicates request '' @ fmt_d reqID
                                   @ '' not processed. Retrying...''),
                              Sleep 5])))))"

text \<open>
  The \<^verbatim>\<open>for\<close> loop, run against the attempts of a schedule. The result says whether
  the loop was left (then the deferred closes have run and \<^verbatim>\<open>SendRequest\<close> has
  returned) or whether it is still retrying when the schedule ends, and gives the seller
  and the events up to there.
\<close>

fun retry_loop ::
  "Seller \<Rightarrow> Request \<Rightarrow> go_int \<Rightarrow> attempt list \<Rightarrow> string list \<Rightarrow> bool \<times> Seller \<times> event list" where
  "retry_loop s req reqID [] deferred = (False, s, [])"
| "retry_loop s req reqID (a # rest) deferred =
     (case attempt_once s req reqID a deferred of
        (brk, s1, deferred1, ev1) \<Rightarrow>
          (if brk then (True, s1, ev1 @ map Close deferred1)
           else (case retry_loop s1 req reqID rest deferred1 of
                   (fin, s2, ev2) \<Rightarrow> (fin, s2, ev1 @ ev2))))"

text \<open>Lines 42 to 53: the new sequence number, taken under the lock, and the request.\<close>

definition next_request :: "Seller \<Rightarrow> Seller \<times> Request" where
  "next_request s =
     (let s1 = s\<lparr>Seller.RequestID := Seller.RequestID s + 1\<rparr>;
          reqID = Seller.RequestID s1
      in (s1, \<lparr>SellerID = Seller.ID s1, Request.Post = Seller.Post s1, Item = ''apples'',
               Quantity = 10, Request.RequestID = reqID\<rparr>))"

definition SendRequest :: "Seller \<Rightarrow> attempt list \<Rightarrow> bool \<times> Seller \<times> event list" where
  "SendRequest s sched =
     (case next_request s of
        (s1, req) \<Rightarrow>
          (case retry_loop s1 req (Request.RequestID req) sched [] of
             (fin, s2, ev) \<Rightarrow>
               (fin, s2,
                [Lock RequestLock, Read FRequestID, Write FRequestID, Read FRequestID,
                 Unlock RequestLock] @ ev)))"

text \<open>
  \<^verbatim>\<open>main\<close> of the seller: the usage check, the struct literal, and the ticker loop
  that calls \<^verbatim>\<open>SendRequest\<close> again once the call before has returned. \<open>allocated\<close>
  lists the sequence numbers the successive calls take at line 44.
\<close>

definition seller_main :: "go_int \<Rightarrow> string \<Rightarrow> string \<Rightarrow> go_int \<Rightarrow> error + Seller" where
  "seller_main sid address traderAddr post =
     (if sid = 0 \<or> address = [] \<or> traderAddr = [] \<or> post = 0
      then Inl ''Usage: seller -id=<id> -address=<address> -trader=<trader> -post=<post>''
      else Inr \<lparr>Seller.ID = sid, Seller.Address = address, TraderAddr = traderAddr,
                Seller.Post = post, Seller.RequestID = 0\<rparr>)"

fun allocated :: "Seller \<Rightarrow> attempt list list \<Rightarrow> go_int list" where
  "allocated s [] = []"
| "allocated s (sched # rest) =
     Request.RequestID (snd (next_request s))
     # (case SendRequest s sched of
          (fin, s1, ev) \<Rightarrow> if fin then allocated s1 rest else [])"

subsection \<open>Lock discipline\<close>

text \<open>
  \<open>guarded held es\<close>: in the events \<open>es\<close>, started with the mutexes \<open>held\<close> locked,
  every read and every write of a shared field happens while some mutex is held.
\<close>

fun guarded :: "mutex list \<Rightarrow> event list \<Rightarrow> bool" where
  "guarded held [] = True"
| "guarded held (Lock m # es) = guarded (m # held) es"
| "guarded held (Unlock m # es) = guarded (remove1 m held) es"
| "guarded held (Read f # es) = (held \<noteq> [] \<and> guarded held es)"
| "guarded held (Write f # es) = (held \<noteq> [] \<and> guarded held es)"
| "guarded held (e # es) = guarded held es"

subsection \<open>Configurations and schedules\<close>

text \<open>
  The processes that \<^verbatim>\<open>run.sh\<close> starts: trader 1 and trader 2 as \<^verbatim>\<open>main\<close> builds
  them, and seller 1.
\<close>

definition trader1 :: Trader where
  "trader1 = \<lparr>Trader.ID = 1, Trader.Address = ''localhost:8001'', Peer = ''localhost:8002'',
               Trader.Post = 1, IsLeader = True, Heartbeat = False, Requests = []\<rparr>"

definition trader2 :: Trader where
  "trader2 = \<lparr>Trader.ID = 2, Trader.Address = ''localhost:8002'', Peer = ''localhost:8001'',
               Trader.Post = 2, IsLeader = False, Heartbeat = False, Requests = []\<rparr>"

definition seller1 :: Seller where
  "seller1 = \<lparr>Seller.ID = 1, Seller.Address = ''localhost:8003'', TraderAddr = ''localhost:8001'',
               Seller.Post = 1, Seller.RequestID = 0\<rparr>"

definition request1 :: Request where
  "request1 = \<lparr>SellerID = 1, Request.Post = 1, Item = ''apples'', Quantity = 10,
                Request.RequestID = 1\<rparr>"

text \<open>The zero \<^verbatim>\<open>Response\<close> that the RPC server hands to a handler.\<close>

definition zero_response :: Response where
  "zero_response = \<lparr>Status = [], Message = [], Response.RequestID = 0, Processed = False\<rparr>"

text \<open>A network in which the first seller of the roster cannot be dialled.\<close>

definition first_seller_down :: "nat \<Rightarrow> string rpc_outcome" where
  "first_seller_down k =
     (if k = 0 then DialErr ''connection refused'' else Reply ''Leader updated successfully'')"

text \<open>
  Attempts of the retry loop: the dial is refused; the call breaks; the reply says the
  request was not processed; the reply echoes another sequence number; the attempt
  reaches trader \<open>t\<close>, whose \<^verbatim>\<open>ReceiveRequest\<close> answers the seller's next request;
  and the same after a leader update with address \<open>a\<close> has been served.
\<close>

definition refused :: attempt where
  "refused = \<lparr>arrivals = [], outcome = DialErr ''connection refused'', late_arrivals = []\<rparr>"

definition broken_call :: attempt where
  "broken_call = \<lparr>arrivals = [], outcome = CallErr ''unexpected EOF'', late_arrivals = []\<rparr>"

definition unprocessed_reply :: attempt where
  "unprocessed_reply =
     \<lparr>arrivals = [],
      outcome = Reply \<lparr>Status = [], Message = [], Response.RequestID = 1, Processed = False\<rparr>,
      late_arrivals = []\<rparr>"

definition stale_reply :: attempt where
  "stale_reply =
     \<lparr>arrivals = [],
      outcome = Reply \<lparr>Status = ''Success'', Message = [], Response.RequestID = 7,
                      Processed = True\<rparr>,
      late_arrivals = []\<rparr>"

definition answered_by :: "Trader \<Rightarrow> Seller \<Rightarrow> attempt" where
  "answered_by t s =
     \<lparr>arrivals = [],
      outcome = Reply (fst (snd (ReceiveRequest t (snd (next_request s)) zero_response))),
      late_arrivals = []\<rparr>"

definition redirected_to :: "string \<Rightarrow> Trader \<Rightarrow> Seller \<Rightarrow> attempt" where
  "redirected_to a t s =
     \<lparr>arrivals = [a],
      outcome = Reply (fst (snd (ReceiveRequest t (snd (next_request s)) zero_response))),
      late_arrivals = []\<rparr>"

section \<open>Properties\<close>

lemmas scenario_defs = trader1_def trader2_def seller1_def
  request1_def zero_response_def first_seller_down_def refused_def broken_call_def
  unprocessed_reply_def stale_reply_def answered_by_def redirected_to_def

lemmas seller_defs = SendRequest_def next_request_def attempt_once_def UpdateLeader_def
  ReceiveRequest_def acknowledged_def Let_def

subsection \<open>Reading event lists\<close>

lemma dialled_append: "dialled (xs @ ys) = dialled xs @ dialled ys"
  by (induction xs rule: dialled.induct) simp_all

lemma called_append: "called (xs @ ys) = called xs @ called ys"
  by (induction xs rule: called.induct) simp_all


lemma logged_append: "logged (xs @ ys) = logged xs @ logged ys"
  by (induction xs rule: logged.induct) simp_all

lemma dialled_closes: "dialled (map Close d) = []"
  by (induction d) simp_all

lemma called_closes: "called (map Close d) = []"
  by (induction d) simp_all


lemma logged_closes: "logged (map Close d) = []"
  by (induction d) simp_all

subsection \<open>Notification of the sellers\<close>

lemma dialled_notify_loop: "dialled (notify_loop t a net k roster d) = roster"
  by (induction roster arbitrary: k d) (simp_all add: dialled_closes split: rpc_outcome.splits)

lemma called_notify_loop:
  "called (notify_loop t a net k roster d) =
     map (\<lambda>(i, x). (x, ''Seller.UpdateLeader'', PStr a))
         (filter (\<lambda>(i, x). connected (net i)) (enumerate k roster))"
  by (induction roster arbitrary: k d)
     (simp_all add: called_closes connected_def split: rpc_outcome.splits)

lemma logged_notify_loop: "length (logged (notify_loop t a net k roster d)) = length roster"
  by (induction roster arbitrary: k d) (simp_all add: logged_closes split: rpc_outcome.splits)

lemma TakeOverLeadership_eq:
  "TakeOverLeadership t net =
     (t\<lparr>IsLeader := True\<rparr>,
      [Write FIsLeader,
       Log (''Trader '' @ fmt_d (Trader.ID t) @ '': Taking over all posts as the sole leader.'')]
      @ snd (NotifySellers (t\<lparr>IsLeader := True\<rparr>) (Trader.Address t) net))"
  by (simp add: TakeOverLeadership_def NotifySellers_def Let_def)

text \<open>
  Claim C6. Whatever the network does, \<^verbatim>\<open>NotifySellers\<close> dials the addresses of the
  roster, each once and in the order of the roster (the roster has no repetition); it
  writes one log line for each of them; the calls it makes are the
  \<^verbatim>\<open>Seller.UpdateLeader\<close> calls, carrying the new address, to exactly the sellers it
  could dial, so a failure for one seller neither stops the loop nor undoes or repeats
  anything. It leaves the trader as it was, and it has no result through which a failure
  could reach its caller.
\<close>

theorem notify_sellers_best_effort:
  "fst (NotifySellers t newLeaderAddr net) = t
   \<and> dialled (snd (NotifySellers t newLeaderAddr net)) = sellerAddresses
   \<and> distinct sellerAddresses
   \<and> length (logged (snd (NotifySellers t newLeaderAddr net))) = length sellerAddresses
   \<and> called (snd (NotifySellers t newLeaderAddr net)) =
       map (\<lambda>(k, sellerAddr). (sellerAddr, ''Seller.UpdateLeader'', PStr newLeaderAddr))
           (filter (\<lambda>(k, sellerAddr). connected (net k)) (enumerate 0 sellerAddresses))"
proof -
  have "distinct sellerAddresses"
    by (simp add: sellerAddresses_def)
  then show ?thesis
    by (simp add: NotifySellers_def dialled_notify_loop called_notify_loop logged_notify_loop)
qed

theorem notify_sellers_best_effort_witness:
  "fst (NotifySellers trader2 ''localhost:8002'' first_seller_down) = trader2
   \<and> dialled (snd (NotifySellers trader2 ''localhost:8002'' first_seller_down))
       = [''localhost:8003'', ''localhost:8004'']
   \<and> called (snd (NotifySellers trader2 ''localhost:8002'' first_seller_down))
       = [(''localhost:8004'', ''Seller.UpdateLeader'', PStr ''localhost:8002'')]"
  using notify_sellers_best_effort [of trader2 "''localhost:8002''" first_seller_down]
  by (simp add: first_seller_down_def sellerAddresses_def connected_def)

subsection \<open>Heartbeat and takeover\<close>

text \<open>
  Claim C1. When the probe of the peer does not come back with a reply, because the
  dial failed or because the call failed, \<^verbatim>\<open>SendHeartbeat\<close> returns with
  \<^verbatim>\<open>IsLeader\<close> set, and on the way it has dialled every seller of the roster and
  called \<^verbatim>\<open>Seller.UpdateLeader\<close> with the trader's own address on every seller it
  could dial. This holds for every state of the trader: one failed probe is enough.
\<close>

theorem heartbeat_failure_takes_over:
  assumes "\<forall>reply. hb \<noteq> Reply reply"
  shows "fst (SendHeartbeat t hb net) = t\<lparr>IsLeader := True\<rparr>
   \<and> dialled (snd (SendHeartbeat t hb net)) = Peer t # sellerAddresses
   \<and> called (snd (SendHeartbeat t hb net)) =
       (case hb of CallErr err \<Rightarrow> [(Peer t, ''Trader.ReceiveHeartbeat'', PInt (Trader.ID t))]
                 | _ \<Rightarrow> [])
       @ map (\<lambda>(k, sellerAddr). (sellerAddr, ''Seller.UpdateLeader'', PStr (Trader.Address t)))
             (filter (\<lambda>(k, sellerAddr). connected (net k)) (enumerate 0 sellerAddresses))"
  using assms
  by (cases hb)
     (simp_all add: SendHeartbeat_def TakeOverLeadership_eq NotifySellers_def dialled_append
        called_append dialled_notify_loop called_notify_loop)

theorem heartbeat_failure_takes_over_witness:
  "(\<forall>reply. (CallErr ''unexpected EOF'' :: string rpc_outcome) \<noteq> Reply reply)
   \<and> IsLeader (fst (SendHeartbeat trader2 (CallErr ''unexpected EOF'') first_seller_down))
   \<and> dialled (snd (SendHeartbeat trader2 (CallErr ''unexpected EOF'') first_seller_down))
       = [''localhost:8001'', ''localhost:8003'', ''localhost:8004'']
   \<and> called (snd (SendHeartbeat trader2 (CallErr ''unexpected EOF'') first_seller_down))
       = [(''localhost:8001'', ''Trader.ReceiveHeartbeat'', PInt 2),
          (''localhost:8004'', ''Seller.UpdateLeader'', PStr ''localhost:8002'')]"
  using heartbeat_failure_takes_over [of "CallErr ''unexpected EOF''" trader2 first_seller_down]
  by (simp add: trader2_def first_seller_down_def sellerAddresses_def connected_def)

subsection \<open>The request handler\<close>

text \<open>
  Claim C2. \<^verbatim>\<open>ReceiveRequest\<close> returns \<^verbatim>\<open>nil\<close> and a response with
  \<^verbatim>\<open>Processed\<close> set, status \<^verbatim>\<open>Success\<close> and the sequence number of the request.
  The response is the same for every trader that receives the request: neither
  \<^verbatim>\<open>IsLeader\<close> nor \<^verbatim>\<open>Post\<close> is looked at.
\<close>

theorem receive_request_always_succeeds:
  "fst (ReceiveRequest t req res) = t
   \<and> Processed (fst (snd (ReceiveRequest t req res)))
   \<and> Status (fst (snd (ReceiveRequest t req res))) = ''Success''
   \<and> Response.RequestID (fst (snd (ReceiveRequest t req res))) = Request.RequestID req
   \<and> fst (snd (snd (ReceiveRequest t req res))) = None
   \<and> fst (snd (ReceiveRequest t' req res)) = fst (snd (ReceiveRequest t req res))"
  by (simp add: ReceiveRequest_def)

theorem receive_request_always_succeeds_witness:
  "fst (snd (ReceiveRequest trader2 request1 zero_response))
     = \<lparr>Status = ''Success'', Message = ''Processed request 1: 10 apples from Seller 1'',
        Response.RequestID = 1, Processed = True\<rparr>
   \<and> fst (snd (snd (ReceiveRequest trader2 request1 zero_response))) = None
   \<and> fst (snd (ReceiveRequest trader1 request1 zero_response))
       = fst (snd (ReceiveRequest trader2 request1 zero_response))"
  using receive_request_always_succeeds [of trader2 request1 zero_response trader1]
  by (simp add: ReceiveRequest_def request1_def zero_response_def fmt_d_def dec.simps)

subsection \<open>The list of requests\<close>

lemma SendHeartbeat_Requests: "Requests (fst (SendHeartbeat t hb net)) = Requests t"
  by (cases hb) (simp_all add: SendHeartbeat_def TakeOverLeadership_eq NotifySellers_def)

lemma StartHeartbeat_Requests: "Requests (fst (StartHeartbeat t ticks)) = Requests t"
proof (induction ticks arbitrary: t)
  case Nil
  show ?case by simp
next
  case (Cons tick ticks)
  obtain hb net where "tick = (hb, net)"
    by (cases tick)
  then show ?case
    using Cons.IH [of "fst (SendHeartbeat t hb net)"]
    by (simp add: case_prod_beta SendHeartbeat_Requests)
qed

text \<open>
  Claim C8, as the code has it. \<^verbatim>\<open>main\<close> starts a trader with an empty
  \<^verbatim>\<open>Requests\<close> list, and no method of the trader changes the list:
  \<^verbatim>\<open>ReceiveRequest\<close> does not append the request it handles, and nothing removes or
  modifies an entry.
\<close>

theorem requests_list_never_changes:
  "Requests (fst (ReceiveRequest t req res)) = Requests t
   \<and> Requests (fst (ReceiveHeartbeat t sender reply)) = Requests t
   \<and> Requests (fst (ForwardRequest t req fwd)) = Requests t
   \<and> Requests (fst (SendResponse t sellerAddr res resp)) = Requests t
   \<and> Requests (fst (NotifySellers t newLeaderAddr net)) = Requests t
   \<and> Requests (fst (TakeOverLeadership t net)) = Requests t
   \<and> Requests (fst (SendHeartbeat t hb net)) = Requests t
   \<and> Requests (fst (StartHeartbeat t ticks)) = Requests t
   \<and> (\<forall>t0. trader_main tid address peer post = Inr t0 \<longrightarrow> Requests t0 = [])"
proof -
  have "Requests (fst (ForwardRequest t req fwd)) = Requests t"
    by (cases fwd) (simp_all add: ForwardRequest_def)
  moreover have "Requests (fst (SendResponse t sellerAddr res resp)) = Requests t"
    by (cases resp) (simp_all add: SendResponse_def)
  moreover have "\<forall>t0. trader_main tid address peer post = Inr t0 \<longrightarrow> Requests t0 = []"
    by (auto simp add: trader_main_def)
  ultimately show ?thesis
    by (simp add: ReceiveRequest_def ReceiveHeartbeat_def NotifySellers_def TakeOverLeadership_eq
          SendHeartbeat_Requests StartHeartbeat_Requests)
qed

theorem requests_list_never_changes_witness:
  "trader_main 1 ''localhost:8001'' ''localhost:8002'' 1 = Inr trader1
   \<and> Requests trader1 = []
   \<and> Requests (fst (ReceiveRequest trader1 request1 zero_response)) = []
   \<and> Requests (fst (SendHeartbeat trader1 (DialErr ''connection refused'') first_seller_down)) = []"
  using requests_list_never_changes [of trader1 request1 zero_response 0 "[]" "DialErr []"
      "[]" "DialErr []" "[]" first_seller_down "DialErr ''connection refused''" "[]"
      1 "''localhost:8001''" "''localhost:8002''" 1]
  by (simp add: trader1_def trader_main_def)

text \<open>
  Trader 1 handles a request: the request is not in its list afterwards, so the list is
  not the list before with the request appended.
\<close>

theorem receive_request_does_not_append_counterexample:
  "Requests (fst (ReceiveRequest trader1 request1 zero_response)) \<noteq> Requests trader1 @ [request1]
   \<and> request1 \<notin> set (Requests (fst (ReceiveRequest trader1 request1 zero_response)))"
  by (simp add: ReceiveRequest_def trader1_def)

subsection \<open>The initial leader\<close>

text \<open>
  Claim C10. A trader that \<^verbatim>\<open>main\<close> starts has \<^verbatim>\<open>IsLeader\<close> set exactly when its
  \<^verbatim>\<open>-id\<close> flag is 1, and the other three flags have no influence on it.
\<close>

theorem initial_leader_is_trader_one:
  assumes "trader_main tid address peer post = Inr t"
  shows "IsLeader t = (tid = 1)
   \<and> (\<forall>address' peer' post' t'.
         trader_main tid address' peer' post' = Inr t' \<longrightarrow> IsLeader t' = IsLeader t)"
  using assms by (auto simp: trader_main_def split: if_splits)

theorem initial_leader_is_trader_one_witness:
  "trader_main 1 ''localhost:8001'' ''localhost:8002'' 1 = Inr trader1
   \<and> IsLeader trader1
   \<and> trader_main 2 ''localhost:8002'' ''localhost:8001'' 2 = Inr trader2
   \<and> \<not> IsLeader trader2"
  using initial_leader_is_trader_one [of 1 "''localhost:8001''" "''localhost:8002''" 1 trader1]
    initial_leader_is_trader_one [of 2 "''localhost:8002''" "''localhost:8001''" 2 trader2]
  by (simp add: trader_main_def trader1_def trader2_def)

subsection \<open>Leader updates\<close>

lemma serve_updates_append:
  "serve_updates s (xs @ ys) =
     (case serve_updates s xs of
        (s1, ev1) \<Rightarrow> (case serve_updates s1 ys of (s2, ev2) \<Rightarrow> (s2, ev1 @ ev2)))"
  by (induction xs arbitrary: s) (simp_all add: UpdateLeader_def split: prod.splits)

lemma fst_serve_updates_append:
  "fst (serve_updates s (xs @ ys)) = fst (serve_updates (fst (serve_updates s xs)) ys)"
  by (simp add: serve_updates_append case_prod_beta)

lemma serve_updates_RequestID:
  "Seller.RequestID (fst (serve_updates s as)) = Seller.RequestID s"
  by (induction as arbitrary: s) (simp_all add: UpdateLeader_def case_prod_beta)

lemma serve_updates_TraderAddr:
  "TraderAddr (fst (serve_updates s as)) = (if as = [] then TraderAddr s else last as)"
  by (induction as arbitrary: s) (simp_all add: UpdateLeader_def case_prod_beta)

lemma serve_updates_dialled: "dialled (snd (serve_updates s as)) = []"
  by (induction as arbitrary: s) (simp_all add: UpdateLeader_def case_prod_beta)

lemma serve_updates_called: "called (snd (serve_updates s as)) = []"
  by (induction as arbitrary: s) (simp_all add: UpdateLeader_def case_prod_beta)


text \<open>
  Claim C5. \<^verbatim>\<open>UpdateLeader\<close> with the same address a second time gives the seller
  that the first call gave, whose \<^verbatim>\<open>TraderAddr\<close> is that address; every call
  returns the acknowledgment string and \<^verbatim>\<open>nil\<close>.
\<close>

theorem update_leader_idempotent:
  "fst (UpdateLeader (fst (UpdateLeader s newLeaderAddr reply)) newLeaderAddr reply')
     = fst (UpdateLeader s newLeaderAddr reply)
   \<and> TraderAddr (fst (UpdateLeader s newLeaderAddr reply)) = newLeaderAddr
   \<and> fst (snd (UpdateLeader s newLeaderAddr reply)) = ''Leader updated successfully''
   \<and> fst (snd (snd (UpdateLeader s newLeaderAddr reply))) = None"
  by (simp add: UpdateLeader_def)

theorem update_leader_idempotent_witness:
  "TraderAddr (fst (UpdateLeader (fst (UpdateLeader seller1 ''localhost:8002'' []))
                     ''localhost:8002'' []))
     = ''localhost:8002''
   \<and> fst (UpdateLeader (fst (UpdateLeader seller1 ''localhost:8002'' [])) ''localhost:8002'' [])
       = fst (UpdateLeader seller1 ''localhost:8002'' [])
   \<and> fst (snd (snd (UpdateLeader seller1 ''localhost:8002'' []))) = None"
  using update_leader_idempotent [of seller1 "''localhost:8002''" "[]" "[]"]
  by (simp add: UpdateLeader_def)

subsection \<open>One pass through the retry loop\<close>

lemma attempt_once_brk:
  "fst (attempt_once s req reqID a d) = acknowledged reqID (outcome a)"
  by (simp add: attempt_once_def acknowledged_def split: prod.splits rpc_outcome.splits)

lemma attempt_once_seller:
  "fst (snd (attempt_once s req reqID a d)) = fst (serve_updates s (arrivals a @ late_arrivals a))"
  by (simp add: attempt_once_def serve_updates_append split: prod.splits rpc_outcome.splits)

lemma attempt_once_dialled:
  "dialled (snd (snd (snd (attempt_once s req reqID a d))))
     = [TraderAddr (fst (serve_updates s (arrivals a)))]"
proof -
  obtain s1 ev1 where 1: "serve_updates s (arrivals a) = (s1, ev1)"
    by (cases "serve_updates s (arrivals a)")
  obtain s2 ev2 where 2: "serve_updates s1 (late_arrivals a) = (s2, ev2)"
    by (cases "serve_updates s1 (late_arrivals a)")
  have "dialled ev1 = []" "dialled ev2 = []"
    using serve_updates_dialled [of s "arrivals a"] serve_updates_dialled [of s1 "late_arrivals a"]
    by (simp_all add: 1 2)
  then show ?thesis
    by (simp add: attempt_once_def 1 2 dialled_append split: rpc_outcome.splits)
qed

lemma attempt_once_called:
  "called (snd (snd (snd (attempt_once s req reqID a d))))
     = (if connected (outcome a)
        then [(TraderAddr (fst (serve_updates s (arrivals a))), ''Trader.ReceiveRequest'', PReq req)]
        else [])"
proof -
  obtain s1 ev1 where 1: "serve_updates s (arrivals a) = (s1, ev1)"
    by (cases "serve_updates s (arrivals a)")
  obtain s2 ev2 where 2: "serve_updates s1 (late_arrivals a) = (s2, ev2)"
    by (cases "serve_updates s1 (late_arrivals a)")
  have "called ev1 = []" "called ev2 = []"
    using serve_updates_called [of s "arrivals a"] serve_updates_called [of s1 "late_arrivals a"]
    by (simp_all add: 1 2)
  then show ?thesis
    by (simp add: attempt_once_def 1 2 called_append connected_def split: rpc_outcome.splits)
qed


lemma attempt_once_starts:
  "\<exists>evs. snd (snd (snd (attempt_once s req reqID a d)))
          = snd (serve_updates s (arrivals a)) @ Read FTraderAddr # evs"
  by (simp add: attempt_once_def case_prod_beta split: rpc_outcome.splits)

subsection \<open>The retry loop\<close>

text \<open>The loop, unfolded by one pass, in terms of the components of the body's result.\<close>

lemma retry_loop_Cons:
  "retry_loop s req reqID (a # rest) d =
     (if acknowledged reqID (outcome a)
      then (True, fst (snd (attempt_once s req reqID a d)),
            snd (snd (snd (attempt_once s req reqID a d)))
            @ map Close (fst (snd (snd (attempt_once s req reqID a d)))))
      else (fst (retry_loop (fst (snd (attempt_once s req reqID a d))) req reqID rest
                   (fst (snd (snd (attempt_once s req reqID a d))))),
            fst (snd (retry_loop (fst (snd (attempt_once s req reqID a d))) req reqID rest
                   (fst (snd (snd (attempt_once s req reqID a d)))))),
            snd (snd (snd (attempt_once s req reqID a d)))
            @ snd (snd (retry_loop (fst (snd (attempt_once s req reqID a d))) req reqID rest
                   (fst (snd (snd (attempt_once s req reqID a d))))))))"
  using attempt_once_brk [of s req reqID a d]
  by (cases "attempt_once s req reqID a d") (simp split: prod.splits)


lemma retry_loop_RequestID:
  "Seller.RequestID (fst (snd (retry_loop s req reqID sched d))) = Seller.RequestID s"
  by (induction sched arbitrary: s d)
     (simp_all add: retry_loop_Cons attempt_once_seller serve_updates_RequestID
        del: retry_loop.simps(2))


lemma retry_loop_dial_count:
  "length (dialled (snd (snd (retry_loop s req reqID sched d))))
     = min (length sched)
           (Suc (length (takeWhile (\<lambda>a. \<not> acknowledged reqID (outcome a)) sched)))"
  by (induction sched arbitrary: s d)
     (simp_all add: retry_loop_Cons dialled_append dialled_closes attempt_once_dialled
        del: retry_loop.simps(2))

lemma retry_loop_called:
  "c \<in> set (called (snd (snd (retry_loop s req reqID sched d))))
     \<Longrightarrow> snd c = (''Trader.ReceiveRequest'', PReq req)"
  by (induction sched arbitrary: s d)
     (auto simp add: retry_loop_Cons called_append called_closes attempt_once_called
        simp del: retry_loop.simps(2) split: if_splits)

lemma retry_loop_starts:
  "\<exists>evs. snd (snd (retry_loop s req reqID (a # rest) d))
          = snd (serve_updates s (arrivals a)) @ Read FTraderAddr # evs"
proof -
  obtain evs where "snd (snd (snd (attempt_once s req reqID a d)))
          = snd (serve_updates s (arrivals a)) @ Read FTraderAddr # evs"
    using attempt_once_starts by blast
  then show ?thesis
    by (simp add: retry_loop_Cons del: retry_loop.simps(2))
qed

text \<open>
  After a prefix of attempts none of which is acknowledged, the loop goes on from the
  seller it has reached, with some stack of deferred closes.
\<close>

lemma retry_loop_prefix:
  "\<forall>a \<in> set pre. \<not> acknowledged reqID (outcome a)
   \<Longrightarrow> \<exists>d'. \<forall>rest.
         fst (retry_loop s req reqID (pre @ rest) d)
           = fst (retry_loop (fst (snd (retry_loop s req reqID pre d))) req reqID rest d')
       \<and> fst (snd (retry_loop s req reqID (pre @ rest) d))
           = fst (snd (retry_loop (fst (snd (retry_loop s req reqID pre d))) req reqID rest d'))
       \<and> snd (snd (retry_loop s req reqID (pre @ rest) d))
           = snd (snd (retry_loop s req reqID pre d))
             @ snd (snd (retry_loop (fst (snd (retry_loop s req reqID pre d))) req reqID rest d'))"
proof (induction pre arbitrary: s d)
  case Nil
  show ?case by (rule exI [of _ d]) simp
next
  case (Cons a pre)
  let ?s1 = "fst (snd (attempt_once s req reqID a d))"
  let ?d1 = "fst (snd (snd (attempt_once s req reqID a d)))"
  have na: "\<not> acknowledged reqID (outcome a)"
    using Cons.prems by simp
  have "\<forall>a \<in> set pre. \<not> acknowledged reqID (outcome a)"
    using Cons.prems by simp
  from Cons.IH [OF this, of ?s1 ?d1] obtain d' where
    d': "\<forall>rest.
         fst (retry_loop ?s1 req reqID (pre @ rest) ?d1)
           = fst (retry_loop (fst (snd (retry_loop ?s1 req reqID pre ?d1))) req reqID rest d')
       \<and> fst (snd (retry_loop ?s1 req reqID (pre @ rest) ?d1))
           = fst (snd (retry_loop (fst (snd (retry_loop ?s1 req reqID pre ?d1))) req reqID rest d'))
       \<and> snd (snd (retry_loop ?s1 req reqID (pre @ rest) ?d1))
           = snd (snd (retry_loop ?s1 req reqID pre ?d1))
             @ snd (snd (retry_loop (fst (snd (retry_loop ?s1 req reqID pre ?d1))) req reqID rest d'))"
    by blast
  show ?case
    by (rule exI [of _ d']) (simp add: retry_loop_Cons na d' del: retry_loop.simps(2))
qed

lemma retry_loop_two_dials:
  assumes "\<not> acknowledged reqID (outcome a0)"
    and "late_arrivals a0 @ arrivals a1 = us @ [newLeaderAddr]"
  shows "\<exists>evs. dialled (snd (snd (retry_loop s req reqID (a0 # a1 # rest) d)))
           = TraderAddr (fst (serve_updates s (arrivals a0))) # newLeaderAddr # evs"
proof -
  let ?s1 = "fst (snd (attempt_once s req reqID a0 d))"
  have "fst (serve_updates ?s1 (arrivals a1))
          = fst (serve_updates s (arrivals a0 @ late_arrivals a0 @ arrivals a1))"
    by (simp add: attempt_once_seller fst_serve_updates_append)
  then have "TraderAddr (fst (serve_updates ?s1 (arrivals a1)))
          = TraderAddr (fst (serve_updates s (arrivals a0 @ us @ [newLeaderAddr])))"
    using assms(2) by simp
  then have "TraderAddr (fst (serve_updates ?s1 (arrivals a1))) = newLeaderAddr"
    by (simp add: serve_updates_TraderAddr)
  then show ?thesis
    using assms(1)
    by (simp add: retry_loop_Cons dialled_append dialled_closes attempt_once_dialled
          del: retry_loop.simps(2))
qed

subsection \<open>SendRequest\<close>

lemma next_request_RequestID:
  "Request.RequestID (snd (next_request s)) = Seller.RequestID s + 1"
  "Seller.RequestID (fst (next_request s)) = Seller.RequestID s + 1"
  by (simp_all add: next_request_def Let_def)

lemma SendRequest_proj:
  "fst (SendRequest s sched)
     = fst (retry_loop (fst (next_request s)) (snd (next_request s)) (Seller.RequestID s + 1)
              sched [])"
  "fst (snd (SendRequest s sched))
     = fst (snd (retry_loop (fst (next_request s)) (snd (next_request s)) (Seller.RequestID s + 1)
                   sched []))"
  "snd (snd (SendRequest s sched))
     = [Lock RequestLock, Read FRequestID, Write FRequestID, Read FRequestID, Unlock RequestLock]
       @ snd (snd (retry_loop (fst (next_request s)) (snd (next_request s))
                     (Seller.RequestID s + 1) sched []))"
  by (simp_all add: SendRequest_def case_prod_beta next_request_RequestID)

lemma SendRequest_RequestID:
  "Seller.RequestID (fst (snd (SendRequest s sched))) = Seller.RequestID s + 1"
  by (simp add: SendRequest_proj retry_loop_RequestID next_request_RequestID)




text \<open>
  Claim C7. Take any point of the retry loop: after attempts \<open>pre\<close>, none acknowledged,
  attempt \<open>a0\<close> is not acknowledged either, and the last leader update served between the
  dial of \<open>a0\<close> and the dial of the next attempt \<open>a1\<close> (while \<open>a0\<close> was under way or
  during the sleep after it) carries \<open>newLeaderAddr\<close>. Then the dial of \<open>a1\<close> goes to
  \<open>newLeaderAddr\<close>. Every call of the loop carries the one request built before the
  loop, with the sequence number taken for this \<^verbatim>\<open>SendRequest\<close>, and the seller's
  counter still has that value afterwards.
\<close>

theorem leader_update_redirects_next_attempt:
  assumes "\<forall>a \<in> set pre. \<not> acknowledged (Seller.RequestID s + 1) (outcome a)"
    and "\<not> acknowledged (Seller.RequestID s + 1) (outcome a0)"
    and "late_arrivals a0 @ arrivals a1 = us @ [newLeaderAddr]"
  shows "Suc (length pre) < length (dialled (snd (snd (SendRequest s (pre @ a0 # a1 # rest)))))
   \<and> dialled (snd (snd (SendRequest s (pre @ a0 # a1 # rest)))) ! Suc (length pre) = newLeaderAddr
   \<and> (\<forall>c \<in> set (called (snd (snd (SendRequest s (pre @ a0 # a1 # rest))))).
         snd c = (''Trader.ReceiveRequest'', PReq (snd (next_request s))))
   \<and> Request.RequestID (snd (next_request s)) = Seller.RequestID s + 1
   \<and> Seller.RequestID (fst (snd (SendRequest s (pre @ a0 # a1 # rest)))) = Seller.RequestID s + 1"
proof -
  let ?s1 = "fst (next_request s)" and ?req = "snd (next_request s)"
  let ?id = "Seller.RequestID s + 1"
  let ?sp = "fst (snd (retry_loop ?s1 ?req ?id pre []))"
  let ?evp = "snd (snd (retry_loop ?s1 ?req ?id pre []))"
  from retry_loop_prefix [OF assms(1), of ?s1 ?req "[]"] obtain d' where
    split: "snd (snd (retry_loop ?s1 ?req ?id (pre @ a0 # a1 # rest) []))
              = ?evp @ snd (snd (retry_loop ?sp ?req ?id (a0 # a1 # rest) d'))"
    by blast
  from retry_loop_two_dials [OF assms(2,3), of ?sp ?req rest d'] obtain evs where
    two: "dialled (snd (snd (retry_loop ?sp ?req ?id (a0 # a1 # rest) d')))
            = TraderAddr (fst (serve_updates ?sp (arrivals a0))) # newLeaderAddr # evs"
    by blast
  have "takeWhile (\<lambda>a. \<not> acknowledged ?id (outcome a)) pre = pre"
    using assms(1) by (simp add: takeWhile_eq_all_conv)
  then have tw: "length (takeWhile (\<lambda>a. \<not> acknowledged ?id (outcome a)) pre) = length pre"
    by (rule arg_cong)
  have len: "length (dialled ?evp) = length pre"
    by (simp add: retry_loop_dial_count tw)
  have d: "dialled (snd (snd (SendRequest s (pre @ a0 # a1 # rest))))
             = dialled ?evp @ TraderAddr (fst (serve_updates ?sp (arrivals a0))) # newLeaderAddr # evs"
    by (simp add: SendRequest_proj split dialled_append two del: retry_loop.simps(2))
  have nth: "dialled (snd (snd (SendRequest s (pre @ a0 # a1 # rest)))) ! Suc (length pre)
               = newLeaderAddr"
    by (simp add: d nth_append len)
  have lt: "Suc (length pre) < length (dialled (snd (snd (SendRequest s (pre @ a0 # a1 # rest)))))"
    by (simp add: d len)
  have calls: "\<forall>c \<in> set (called (snd (snd (SendRequest s (pre @ a0 # a1 # rest))))).
         snd c = (''Trader.ReceiveRequest'', PReq ?req)"
    by (auto simp add: SendRequest_proj simp del: retry_loop.simps(2) dest: retry_loop_called)
  show ?thesis
    using nth lt calls by (simp add: next_request_RequestID SendRequest_RequestID)
qed

theorem leader_update_redirects_next_attempt_witness:
  "\<not> acknowledged 1 (outcome refused)
   \<and> arrivals (redirected_to ''localhost:8002'' trader2 seller1) = [''localhost:8002'']
   \<and> dialled (snd (snd (SendRequest seller1
         [refused, refused, redirected_to ''localhost:8002'' trader2 seller1])))
       = [''localhost:8001'', ''localhost:8001'', ''localhost:8002'']
   \<and> Seller.RequestID (fst (snd (SendRequest seller1
         [refused, refused, redirected_to ''localhost:8002'' trader2 seller1]))) = 1
   \<and> fst (SendRequest seller1 [refused, refused, redirected_to ''localhost:8002'' trader2 seller1])"
  using leader_update_redirects_next_attempt [of "[refused]" seller1 refused
      "redirected_to ''localhost:8002'' trader2 seller1" "[]" "''localhost:8002''" "[]"]
  by (simp add: scenario_defs seller_defs)

subsection \<open>Sequence numbers\<close>

lemma sint_succ:
  assumes "sint (w :: go_int) < 2 ^ 63 - 1"
  shows "sint (w + 1) = sint w + 1"
proof -
  have lo: "- (2 ^ 63) \<le> sint w + 1"
    using sint_ge [of w] by simp
  have hi: "sint w + 1 < 2 ^ 63"
    using assms by simp
  have "sint (w + 1) = signed_take_bit 63 (sint w + 1)"
    by (simp add: sint_word_add)
  also have "\<dots> = sint w + 1"
    using lo hi by (rule signed_take_bit_int_eq_self)
  finally show ?thesis .
qed

lemma allocated_Cons:
  "allocated s (sched # rest) =
     (Seller.RequestID s + 1)
     # (if fst (SendRequest s sched) then allocated (fst (snd (SendRequest s sched))) rest else [])"
  by (simp add: next_request_RequestID case_prod_beta)

lemma allocated_increasing:
  "sint (Seller.RequestID s) + int (length scheds) \<le> 2 ^ 63 - 1
   \<Longrightarrow> sorted_wrt (<) (map sint (allocated s scheds))
       \<and> (\<forall>x \<in> set (allocated s scheds). sint (Seller.RequestID s) < sint x)"
proof (induction scheds arbitrary: s)
  case Nil
  then show ?case by simp
next
  case (Cons sched rest)
  let ?s1 = "fst (snd (SendRequest s sched))"
  have room: "sint (Seller.RequestID s) < 2 ^ 63 - 1"
    using Cons.prems by simp
  have step: "sint (Seller.RequestID s + 1) = sint (Seller.RequestID s) + 1"
    using room by (rule sint_succ)
  have s1: "Seller.RequestID ?s1 = Seller.RequestID s + 1"
    by (rule SendRequest_RequestID)
  have "sint (Seller.RequestID ?s1) + int (length rest) \<le> 2 ^ 63 - 1"
    using Cons.prems by (simp add: s1 step)
  then have ih: "sorted_wrt (<) (map sint (allocated ?s1 rest))
       \<and> (\<forall>x \<in> set (allocated ?s1 rest). sint (Seller.RequestID s) + 1 < sint x)"
    using Cons.IH [of ?s1] by (simp add: s1 step)
  show ?case
  proof (cases "fst (SendRequest s sched)")
    case True
    then have "allocated s (sched # rest) = (Seller.RequestID s + 1) # allocated ?s1 rest"
      by (simp add: allocated_Cons del: allocated.simps(2))
    moreover have "\<forall>x \<in> set (allocated ?s1 rest). sint (Seller.RequestID s) < sint x"
      using ih by fastforce
    ultimately show ?thesis
      using ih by (simp add: step)
  next
    case False
    then have "allocated s (sched # rest) = [Seller.RequestID s + 1]"
      by (simp add: allocated_Cons del: allocated.simps(2))
    then show ?thesis
      by (simp add: step)
  qed
qed

text \<open>
  The numbers that successive calls take are the counter plus one, plus two, and so on,
  for as many calls as have been started.
\<close>

lemma allocated_prefix:
  "\<exists>m \<le> length scheds.
     allocated s scheds = map (\<lambda>i. Seller.RequestID s + 1 + of_nat i) [0..<m]"
proof (induction scheds arbitrary: s)
  case Nil
  show ?case by simp
next
  case (Cons sched rest)
  let ?s1 = "fst (snd (SendRequest s sched))"
  have s1: "Seller.RequestID ?s1 = Seller.RequestID s + 1"
    by (rule SendRequest_RequestID)
  show ?case
  proof (cases "fst (SendRequest s sched)")
    case True
    from Cons.IH [of ?s1] obtain m where m: "m \<le> length rest"
      and eq: "allocated ?s1 rest = map (\<lambda>i. Seller.RequestID s + 1 + 1 + of_nat i) [0..<m]"
      by (auto simp add: s1)
    have "allocated s (sched # rest) = (Seller.RequestID s + 1) # allocated ?s1 rest"
      using True by (simp add: allocated_Cons del: allocated.simps(2))
    also have "\<dots> = map (\<lambda>i. Seller.RequestID s + 1 + of_nat i) [0..<Suc m]"
      by (simp add: eq upt_conv_Cons map_Suc_upt [symmetric] del: upt_Suc)
    finally show ?thesis
      using m by (intro exI [of _ "Suc m"]) simp
  next
    case False
    then have "allocated s (sched # rest)
                 = map (\<lambda>i. Seller.RequestID s + 1 + of_nat i) [0..<Suc 0]"
      by (simp add: allocated_Cons del: allocated.simps(2))
    then show ?thesis
      by (intro exI [of _ "Suc 0"]) simp
  qed
qed

lemma allocated_distinct:
  assumes "length scheds \<le> 2 ^ 64"
  shows "distinct (allocated s scheds)"
proof -
  obtain m where m: "m \<le> length scheds"
    and eq: "allocated s scheds = map (\<lambda>i. Seller.RequestID s + 1 + of_nat i) [0..<m]"
    using allocated_prefix by blast
  have "inj_on (\<lambda>i. Seller.RequestID s + 1 + (of_nat i :: go_int)) {0..<m}"
  proof (rule inj_onI)
    fix i j
    assume i: "i \<in> {0..<m}" and j: "j \<in> {0..<m}"
      and "Seller.RequestID s + 1 + (of_nat i :: go_int) = Seller.RequestID s + 1 + of_nat j"
    then have "(of_nat i :: go_int) = of_nat j"
      by simp
    then have "unat (of_nat i :: go_int) = unat (of_nat j :: go_int)"
      by (rule arg_cong)
    then have "i mod 2 ^ 64 = j mod 2 ^ 64"
      by (simp add: unat_of_nat)
    moreover have "i < 2 ^ 64" "j < 2 ^ 64"
      using i j m assms by simp_all
    ultimately show "i = j"
      by simp
  qed
  then show ?thesis
    by (simp add: eq distinct_map)
qed

text \<open>
  Claim C4. Take a seller as \<^verbatim>\<open>main\<close> starts it, with its counter at 0, and any run
  of fewer than \<open>2^63\<close> successive calls of \<^verbatim>\<open>SendRequest\<close> (the range of a 64-bit
  \<^verbatim>\<open>int\<close>; the ticker starts one call every 10 seconds), with any leader updates
  served during and between the calls. The sequence numbers the calls take are strictly
  increasing, pairwise different and positive. More generally, from any counter the
  numbers are strictly increasing as long as the counter plus the number of calls stays
  within the largest \<^verbatim>\<open>int\<close>, and no number is taken twice within \<open>2^64\<close> calls.
  \<^verbatim>\<open>UpdateLeader\<close> never changes the counter, and the only change a call of
  \<^verbatim>\<open>SendRequest\<close> makes to it is to add one.
\<close>

theorem sequence_numbers_strictly_increase:
  assumes "seller_main sid address traderAddr post = Inr s0"
    and "length scheds < 2 ^ 63"
  shows "sorted_wrt (<) (map sint (allocated s0 scheds))
   \<and> distinct (allocated s0 scheds)
   \<and> (\<forall>x \<in> set (allocated s0 scheds). 0 < sint x)
   \<and> (\<forall>s. sint (Seller.RequestID s) + int (length scheds) \<le> 2 ^ 63 - 1
         \<longrightarrow> sorted_wrt (<) (map sint (allocated s scheds))
             \<and> (\<forall>x \<in> set (allocated s scheds). sint (Seller.RequestID s) < sint x))
   \<and> (\<forall>s calls. length calls \<le> 2 ^ 64 \<longrightarrow> distinct (allocated s calls))
   \<and> (\<forall>s newLeaderAddr reply.
         Seller.RequestID (fst (UpdateLeader s newLeaderAddr reply)) = Seller.RequestID s)
   \<and> (\<forall>s updates. Seller.RequestID (fst (serve_updates s updates)) = Seller.RequestID s)
   \<and> (\<forall>s sched. Seller.RequestID (fst (snd (SendRequest s sched))) = Seller.RequestID s + 1)"
proof -
  have zero: "Seller.RequestID s0 = 0"
    using assms(1) by (auto simp add: seller_main_def split: if_splits)
  have "sint (Seller.RequestID s0) + int (length scheds) \<le> 2 ^ 63 - 1"
    using assms(2) by (simp add: zero)
  from allocated_increasing [OF this]
  have inc: "sorted_wrt (<) (map sint (allocated s0 scheds))"
    and pos: "\<forall>x \<in> set (allocated s0 scheds). 0 < sint x"
    by (simp_all add: zero)
  have "length scheds \<le> 2 ^ 64"
    using assms(2) by (simp add: order.strict_trans2 less_imp_le)
  then have dist: "distinct (allocated s0 scheds)"
    by (rule allocated_distinct)
  have upd: "\<forall>s newLeaderAddr reply.
         Seller.RequestID (fst (UpdateLeader s newLeaderAddr reply)) = Seller.RequestID s"
    by (simp add: UpdateLeader_def)
  show ?thesis
    using inc dist pos upd
    by (simp add: allocated_increasing allocated_distinct serve_updates_RequestID
          SendRequest_RequestID)
qed

theorem sequence_numbers_strictly_increase_witness:
  "seller_main 1 ''localhost:8003'' ''localhost:8001'' 1 = Inr seller1
   \<and> allocated seller1
       [[answered_by trader1 seller1],
        [refused, redirected_to ''localhost:8002'' trader2 (seller1\<lparr>Seller.RequestID := 1\<rparr>)],
        [answered_by trader2 (seller1\<lparr>Seller.RequestID := 2\<rparr>)]]
       = [1, 2, 3]
   \<and> sorted_wrt (<) (map sint (allocated seller1
       [[answered_by trader1 seller1],
        [refused, redirected_to ''localhost:8002'' trader2 (seller1\<lparr>Seller.RequestID := 1\<rparr>)],
        [answered_by trader2 (seller1\<lparr>Seller.RequestID := 2\<rparr>)]]))
   \<and> Seller.RequestID (fst (UpdateLeader seller1 ''localhost:8002'' [])) = 0"
  using sequence_numbers_strictly_increase [of 1 "''localhost:8003''" "''localhost:8001''" 1 seller1
      "[[answered_by trader1 seller1],
        [refused, redirected_to ''localhost:8002'' trader2 (seller1\<lparr>Seller.RequestID := 1\<rparr>)],
        [answered_by trader2 (seller1\<lparr>Seller.RequestID := 2\<rparr>)]]"]
  by (simp add: scenario_defs seller_defs seller_main_def)

subsection \<open>Locks\<close>

lemma unguarded_after_updates:
  "\<not> guarded [] (snd (serve_updates s as) @ Read f # evs)"
  by (cases as) (simp_all add: UpdateLeader_def case_prod_beta)

text \<open>
  Claim C9, where the code departs from it. \<^verbatim>\<open>UpdateLeader\<close> writes
  \<^verbatim>\<open>TraderAddr\<close> and \<^verbatim>\<open>TakeOverLeadership\<close> writes \<^verbatim>\<open>IsLeader\<close> while no mutex
  is held, and the retry loop of \<^verbatim>\<open>SendRequest\<close> reads \<^verbatim>\<open>TraderAddr\<close> while no
  mutex is held. The increment of the counter at the head of \<^verbatim>\<open>SendRequest\<close> and the
  write of \<^verbatim>\<open>Heartbeat\<close> in \<^verbatim>\<open>ReceiveHeartbeat\<close> are inside a locked section.
\<close>

theorem leader_fields_written_without_lock:
  "\<not> guarded [] (snd (snd (snd (UpdateLeader s newLeaderAddr reply))))
   \<and> \<not> guarded [] (snd (TakeOverLeadership t net))
   \<and> \<not> guarded [] (snd (snd (SendRequest s (a # rest))))
   \<and> guarded [] (take 5 (snd (snd (SendRequest s sched))))
   \<and> guarded [] (snd (snd (snd (ReceiveHeartbeat t sender hreply))))"
proof -
  obtain evs where "snd (snd (retry_loop (fst (next_request s)) (snd (next_request s))
                        (Seller.RequestID s + 1) (a # rest) []))
           = snd (serve_updates (fst (next_request s)) (arrivals a)) @ Read FTraderAddr # evs"
    using retry_loop_starts by blast
  then have "\<not> guarded [] (snd (snd (SendRequest s (a # rest))))"
    by (simp add: SendRequest_proj unguarded_after_updates del: retry_loop.simps(2))
  then show ?thesis
    by (simp add: UpdateLeader_def TakeOverLeadership_eq SendRequest_proj ReceiveHeartbeat_def)
qed

theorem leader_fields_written_without_lock_witness:
  "\<not> guarded [] (snd (snd (snd (UpdateLeader seller1 ''localhost:8002'' []))))
   \<and> \<not> guarded [] (snd (TakeOverLeadership trader2 first_seller_down))
   \<and> guarded [] (take 5 (snd (snd (SendRequest seller1 [refused]))))"
  using leader_fields_written_without_lock [of seller1 "''localhost:8002''" "[]" trader2
      first_seller_down refused "[]" "[refused]" 1 "[]"]
  by simp

end
